theory Spec2Isabelle
  imports Complex_Main "HOL-Library.Multiset"
begin

section \<open>Arrays, errors and the outside world\<close>

text \<open>
  \<^verbatim>\<open>vis_utils.py\<close> works on numpy arrays and talks to three collaborators: numpy's
  global random state, matplotlib's current figure, and the colour conversions of
  \<^verbatim>\<open>skimage.color\<close>. An array is its shape, its dtype and its elements in row-major
  (C) order. Element values are mathematical reals: rounding, infinities and NaN of
  float64 are outside the model, except where a 0/0 of the source is marked below.
\<close>

datatype np_dtype = Float64 | Float32 | UInt8 | Int64

datatype error = AssertionError | ValueError | IndexError | TypeError

record ndarray =
  shape :: "nat list"
  dtype :: np_dtype
  elems :: "real list"

text \<open>A well-formed array holds exactly as many elements as its shape says.\<close>

definition wf_ndarray :: "ndarray \<Rightarrow> bool" where
  "wf_ndarray I = (length (elems I) = prod_list (shape I))"

text \<open>
  The number of pixels of an array whose last axis is the channel axis: the length of
  \<^verbatim>\<open>I[...,i].ravel()\<close>.
\<close>

definition npixels :: "ndarray \<Rightarrow> nat" where
  "npixels I = prod_list (butlast (shape I))"

text \<open>
  \<^verbatim>\<open>I[...,i].ravel()\<close>: channel \<open>i\<close> of every pixel, in row-major order. Every caller
  has established that the last axis has length 3 before it reads a channel.
\<close>

definition channel :: "ndarray \<Rightarrow> nat \<Rightarrow> real list" where
  "channel I i = map (\<lambda>p. elems I ! (p * last (shape I) + i)) [0..<npixels I]"

text \<open>
  \<^verbatim>\<open>np.stack([I[...,i].ravel() for i in range(3)]).T\<close>: the N x 3 matrix of the pixels,
  one row per pixel.
\<close>

definition pixel_rows :: "ndarray \<Rightarrow> real list list" where
  "pixel_rows I =
     map (\<lambda>p. [channel I 0 ! p, channel I 1 ! p, channel I 2 ! p]) [0..<npixels I]"

text \<open>\<^verbatim>\<open>I.min()\<close> and \<^verbatim>\<open>I.max()\<close>: numpy raises ValueError on a zero-size array.\<close>

definition amin :: "real list \<Rightarrow> error + real" where
  "amin xs = (if xs = [] then Inl ValueError else Inr (Min (set xs)))"

definition amax :: "real list \<Rightarrow> error + real" where
  "amax xs = (if xs = [] then Inl ValueError else Inr (Max (set xs)))"

subsection \<open>The random state\<close>

text \<open>
  numpy's global generator is a stream of raw outputs; a bounded draw
  (\<^verbatim>\<open>random_interval(max)\<close>, a value in \<open>[0, max]\<close>) consumes one of them. Every sequence
  of bounded draws the real generator can produce is the image of some stream.
\<close>

type_synonym rng = "nat \<Rightarrow> nat"

definition rk_interval :: "nat \<Rightarrow> rng \<Rightarrow> nat \<times> rng" where
  "rk_interval mx g = (g 0 mod Suc mx, \<lambda>i. g (Suc i))"

text \<open>
  \<^verbatim>\<open>RandomState.shuffle\<close>, the loop
  \<^verbatim>\<open>for i in reversed(range(1, n)): j = random_interval(i); x[i], x[j] = x[j], x[i]\<close>.
\<close>

fun shuffle_from :: "nat \<Rightarrow> nat list \<Rightarrow> rng \<Rightarrow> nat list \<times> rng" where
  "shuffle_from 0 xs g = (xs, g)"
| "shuffle_from (Suc i) xs g =
     (case rk_interval (Suc i) g of
        (j, g') \<Rightarrow> shuffle_from i (xs[Suc i := xs ! j, j := xs ! Suc i]) g')"

definition permutation :: "nat \<Rightarrow> rng \<Rightarrow> nat list \<times> rng" where
  "permutation n g = shuffle_from (n - 1) [0..<n] g"

text \<open>
  \<^verbatim>\<open>np.random.choice(a, size, replace=False)\<close> for a population of \<open>pop_size\<close> indices
  (\<open>a\<close> an int, or \<^verbatim>\<open>np.arange\<close> of it): ValueError for an empty population unless no
  sample is taken, ValueError for a sample larger than the population, and otherwise
  the first \<open>sz\<close> (numpy's \<^verbatim>\<open>size\<close>) entries of a random permutation. Counts are
  naturals.
\<close>

definition random_choice :: "nat \<Rightarrow> nat \<Rightarrow> rng \<Rightarrow> error + nat list \<times> rng" where
  "random_choice pop_size sz g =
     (if pop_size = 0 \<and> sz \<noteq> 0 then Inl ValueError
      else if sz > pop_size then Inl ValueError
      else case permutation pop_size g of (idx, g') \<Rightarrow> Inr (take sz idx, g'))"

subsection \<open>The plotting surface\<close>

text \<open>
  matplotlib is a collaborator that receives calls: the model logs each call, with the
  arguments the claims are about, on a canvas. A colour entry is \<open>None\<close> where the source
  computes 0/0 (NaN). Two of its calls refuse their argument with ValueError before
  they draw: \<^verbatim>\<open>scatter\<close>, when a colour value lies outside [0,1] (NaN passes the test), and
  \<^verbatim>\<open>imshow\<close>, when the image has no pixel.
\<close>

datatype plot_cmd =
    Figure
  | AddSubplot3d
  | Scatter "real list" "real list" "real list" "real option list list"
  | SetXLabel string
  | SetYLabel string
  | SetZLabel string
  | TightLayout
  | Subplots
  | Imshow ndarray
  | SetTitle string
  | Hist "real list" "real list" string
  | Legend

record world =
  rng_state :: rng
  canvas :: "plot_cmd list"

text \<open>
  A plotting function either returns, leaving a new world, or raises, leaving the error
  and the world as it was when the exception left the function.
\<close>

type_synonym outcome = "error \<times> world + world"

text \<open>
  The test of \<^verbatim>\<open>scatter\<close> on its colour argument \<^verbatim>\<open>c\<close>. In vis\_rgb\_cube the assertions
  have already put every colour in [0,1]; the other functions make no assertion.
\<close>

definition rgba_in_range :: "real option list list \<Rightarrow> bool" where
  "rgba_in_range c =
     list_all (list_all (\<lambda>v. case v of None \<Rightarrow> True | Some x \<Rightarrow> 0 \<le> x \<and> x \<le> 1)) c"

text \<open>Fancy indexing: \<^verbatim>\<open>X[randomInds, j]\<close> and \<^verbatim>\<open>X[randomInds, :]\<close>.\<close>

definition column :: "real list list \<Rightarrow> nat \<Rightarrow> nat list \<Rightarrow> real list" where
  "column X j inds = map (\<lambda>i. X ! i ! j) inds"

definition rows :: "'a list \<Rightarrow> nat list \<Rightarrow> 'a list" where
  "rows X inds = map (\<lambda>i. X ! i) inds"

section \<open>vis\_rgb\_cube\<close>

text \<open>
  \<^verbatim>\<open>I.min() >= 0 and I.max() <= hi\<close>, with Python's short-circuit \<^verbatim>\<open>and\<close>.
\<close>

definition in_range :: "ndarray \<Rightarrow> real \<Rightarrow> error + bool" where
  "in_range I hi =
     (case amin (elems I) of
        Inl e \<Rightarrow> Inl e
      | Inr lo \<Rightarrow>
          if \<not> 0 \<le> lo then Inr False
          else (case amax (elems I) of Inl e \<Rightarrow> Inl e | Inr mx \<Rightarrow> Inr (mx \<le> hi)))"

text \<open>
  The function follows the source line by line: the shape assertion, the range
  assertion chosen by \<^verbatim>\<open>I.dtype == 'float'\<close> (true of float64 only), the colour
  function, the constant \<^verbatim>\<open>NUMPOINTS = 5000\<close>, the figure, the pixel matrix, the random
  choice and the scatter call. The parameter \<open>numPoints\<close> is never read.
\<close>

definition vis_rgb_cube :: "ndarray \<Rightarrow> nat \<Rightarrow> world \<Rightarrow> outcome" where
  "vis_rgb_cube I numPoints w =
     (if \<not> (length (shape I) = 3 \<and> last (shape I) = 3) then Inl (AssertionError, w)
      else case (if dtype I = Float64 then in_range I 1 else in_range I 255) of
        Inl e \<Rightarrow> Inl (e, w)
      | Inr ok \<Rightarrow>
          if \<not> ok then Inl (AssertionError, w)
          else (case amax (elems I) of
            Inl e \<Rightarrow> Inl (e, w)
          | Inr mx \<Rightarrow>
              let colr_func = (if mx \<le> 1 then (\<lambda>x. x) else (\<lambda>x. x / 255));
                  NUMPOINTS = 5000;
                  w1 = w\<lparr>canvas := canvas w @ [Figure, AddSubplot3d]\<rparr>;
                  X = pixel_rows I
              in case random_choice (length X) NUMPOINTS (rng_state w1) of
                   Inl e \<Rightarrow> Inl (e, w1)
                 | Inr (randomInds, g) \<Rightarrow>
                     Inr (w1\<lparr>rng_state := g,
                            canvas := canvas w1 @
                              [Scatter (column X 0 randomInds) (column X 1 randomInds)
                                 (column X 2 randomInds)
                                 (map (map (\<lambda>x. Some (colr_func x))) (rows X randomInds)),
                               SetXLabel ''Red'', SetYLabel ''Green'', SetZLabel ''Blue'',
                               TightLayout]\<rparr>)))"

section \<open>The colour conversions\<close>

text \<open>
  \<^verbatim>\<open>color.rgb2hsv\<close>, \<^verbatim>\<open>color.rgb2lab\<close>, \<^verbatim>\<open>color.rgb2ycbcr\<close> and \<^verbatim>\<open>color.lab2rgb\<close> belong to
  skimage. Each works pixel by pixel: what it does to one pixel of an array of a given
  dtype is a parameter of the model (a \<open>conv\<close>), and the array around it follows
  skimage's contract: an array with no axis has no last axis (IndexError), a last axis
  that is not of length 3 is refused (ValueError), and the result has the shape of the
  input and a float dtype.
\<close>

type_synonym pixel = "real \<times> real \<times> real"

type_synonym conv = "np_dtype \<Rightarrow> pixel \<Rightarrow> pixel"

definition pixel_at :: "ndarray \<Rightarrow> nat \<Rightarrow> pixel" where
  "pixel_at I p = (elems I ! (3 * p), elems I ! (3 * p + 1), elems I ! (3 * p + 2))"

definition color_convert :: "conv \<Rightarrow> ndarray \<Rightarrow> error + ndarray" where
  "color_convert f I =
     (if shape I = [] then Inl IndexError
      else if last (shape I) \<noteq> 3 then Inl ValueError
      else Inr \<lparr>shape = shape I,
                dtype = (if dtype I = Float32 then Float32 else Float64),
                elems = concat (map (\<lambda>p. case f (dtype I) (pixel_at I p) of
                                           (a, b, c) \<Rightarrow> [a, b, c]) [0..<npixels I])\<rparr>)"

text \<open>
  The block under \<^verbatim>\<open># point colors\<close>, the same in the three functions below:
  \<^verbatim>\<open>if point_colors.max() > 1\<close> the colours are shifted by their minimum and divided by
  the new maximum. \<^verbatim>\<open>max()\<close> of no colours raises ValueError; a division 0/0 is NaN.
\<close>

definition point_colors :: "real list list \<Rightarrow> error + real option list list" where
  "point_colors pc =
     (case amax (concat pc) of
        Inl e \<Rightarrow> Inl e
      | Inr mx \<Rightarrow>
          if mx > 1 then
            (case amin (concat pc) of
               Inl e \<Rightarrow> Inl e
             | Inr mn \<Rightarrow>
                 let pc1 = map (map (\<lambda>x. x - mn)) pc
                 in case amax (concat pc1) of
                      Inl e \<Rightarrow> Inl e
                    | Inr mx1 \<Rightarrow>
                        Inr (map (map (\<lambda>x. if mx1 = 0 then None else Some (x / mx1))) pc1))
          else Inr (map (map Some) pc))"

section \<open>vis\_hsv\_cube\<close>

text \<open>
  Lines 66 to 71: hue becomes the angle \<open>P\<close>, saturation the radius \<open>R\<close>, value the
  height \<open>Z\<close>; \<^verbatim>\<open>X, Y = R*np.cos(P), R*np.sin(P)\<close>.
\<close>

definition hsv_xyz :: "ndarray \<Rightarrow> real list \<times> real list \<times> real list" where
  "hsv_xyz Ihsv =
     (let P = map (\<lambda>h. 2 * pi * h) (channel Ihsv 0);
          R = channel Ihsv 1;
          Z = channel Ihsv 2;
          X = map2 (\<lambda>r p. r * cos p) R P;
          Y = map2 (\<lambda>r p. r * sin p) R P
      in (X, Y, Z))"

definition vis_hsv_cube :: "conv \<Rightarrow> ndarray \<Rightarrow> nat \<Rightarrow> world \<Rightarrow> outcome" where
  "vis_hsv_cube rgb2hsv I numpoints w =
     (case color_convert rgb2hsv I of
        Inl e \<Rightarrow> Inl (e, w)
      | Inr Ihsv \<Rightarrow>
          (case hsv_xyz Ihsv of
             (X, Y, Z) \<Rightarrow>
               let Xrgb = pixel_rows I
               in case random_choice (length X) numpoints (rng_state w) of
                    Inl e \<Rightarrow> Inl (e, w)
                  | Inr (randomInds, g) \<Rightarrow>
                      let w1 = w\<lparr>rng_state := g,
                                 canvas := canvas w @ [Figure, AddSubplot3d]\<rparr>
                      in case point_colors (rows Xrgb randomInds) of
                           Inl e \<Rightarrow> Inl (e, w1)
                         | Inr pc \<Rightarrow>
                             if \<not> rgba_in_range pc then Inl (ValueError, w1)
                             else
                             Inr (w1\<lparr>canvas := canvas w1 @
                                    [Scatter (rows X randomInds) (rows Y randomInds)
                                       (rows Z randomInds) pc,
                                     SetXLabel ''H and S'', SetYLabel ''H and S'',
                                     SetZLabel ''Value'']\<rparr>)))"

section \<open>vis\_lab\_cube\<close>

definition vis_lab_cube :: "conv \<Rightarrow> ndarray \<Rightarrow> nat \<Rightarrow> world \<Rightarrow> outcome" where
  "vis_lab_cube rgb2lab I numpoints w =
     (case color_convert rgb2lab I of
        Inl e \<Rightarrow> Inl (e, w)
      | Inr Ilab \<Rightarrow>
          let Xlab = pixel_rows Ilab;
              Xrgb = pixel_rows I
          in case random_choice (length Xlab) numpoints (rng_state w) of
               Inl e \<Rightarrow> Inl (e, w)
             | Inr (randomInds, g) \<Rightarrow>
                 let w1 = w\<lparr>rng_state := g,
                            canvas := canvas w @ [Figure, AddSubplot3d]\<rparr>
                 in case point_colors (rows Xrgb randomInds) of
                      Inl e \<Rightarrow> Inl (e, w1)
                    | Inr pc \<Rightarrow>
                        if \<not> rgba_in_range pc then Inl (ValueError, w1)
                        else
                        Inr (w1\<lparr>canvas := canvas w1 @
                               [Scatter (column Xlab 1 randomInds) (column Xlab 2 randomInds)
                                  (column Xlab 0 randomInds) pc,
                                SetXLabel ''green->red'', SetYLabel ''blue->yellow'',
                                SetZLabel ''Lightness'']\<rparr>))"

section \<open>vis\_hists\<close>

text \<open>
  \<^verbatim>\<open>np.histogram(a, bins=256)\<close> returns the counts and the bin edges; the source keeps
  the edges only. The outer edges are the minimum and the maximum of the data, (0, 1)
  for no data, and are moved apart by a half each when they coincide; the edges are
  \<^verbatim>\<open>np.linspace(first_edge, last_edge, bins + 1)\<close>.
\<close>

text \<open>
  vis\_hists computes the edges (line 191), opens the two axes (line 193) and shows the
  image (line 195), which raises on an image of no pixel, before the three histograms.
\<close>

definition linspace :: "real \<Rightarrow> real \<Rightarrow> nat \<Rightarrow> real list" where
  "linspace start stop num =
     map (\<lambda>i. start + real i * ((stop - start) / real (num - 1))) [0..<num]"

definition outer_edges :: "real list \<Rightarrow> real \<times> real" where
  "outer_edges a =
     (case (if a = [] then (0, 1) else (Min (set a), Max (set a))) of
        (first_edge, last_edge) \<Rightarrow>
          if first_edge = last_edge then (first_edge - 0.5, last_edge + 0.5)
          else (first_edge, last_edge))"

definition histogram_bin_edges :: "real list \<Rightarrow> nat \<Rightarrow> real list" where
  "histogram_bin_edges a bins =
     (case outer_edges a of
        (first_edge, last_edge) \<Rightarrow> linspace first_edge last_edge (bins + 1))"

definition vis_hists :: "ndarray \<Rightarrow> world \<Rightarrow> outcome" where
  "vis_hists I w =
     (if \<not> (length (shape I) = 3 \<and> last (shape I) = 3) then Inl (AssertionError, w)
      else let allbins = histogram_bin_edges (elems I) 256;
               w1 = w\<lparr>canvas := canvas w @ [Subplots]\<rparr>
           in if npixels I = 0 then Inl (ValueError, w1)
              else Inr (w1\<lparr>canvas := canvas w1 @
                          [Imshow I, SetTitle ''Image'',
                           Hist (channel I 0) allbins ''red'',
                           Hist (channel I 1) allbins ''green'',
                           Hist (channel I 2) allbins ''blue'',
                           Legend, TightLayout]\<rparr>))"

section \<open>lab\_uniform\<close>

text \<open>
  \<^verbatim>\<open>np.array(lyst, ndmin=3)\<close> for a list of colour triples of Python floats: the
  \<open>n x 3\<close> array gets one leading axis; the empty list is the array of shape (0,), which
  gets two.
\<close>

definition np_array3 :: "pixel list \<Rightarrow> ndarray" where
  "np_array3 lyst =
     \<lparr>shape = (if lyst = [] then [1, 1, 0] else [1, length lyst, 3]),
      dtype = Float64,
      elems = concat (map (\<lambda>(r, g, b). [r, g, b]) lyst)\<rparr>"

text \<open>\<^verbatim>\<open>np.mean\<close>, read only where there is at least one value.\<close>

definition np_mean :: "real list \<Rightarrow> real" where
  "np_mean xs = sum_list xs / real (length xs)"

text \<open>\<^verbatim>\<open>A[...,0] = v\<close>: the first channel of every pixel becomes \<open>v\<close>.\<close>

definition set_channel0 :: "ndarray \<Rightarrow> real \<Rightarrow> ndarray" where
  "set_channel0 A v =
     A\<lparr>elems := concat (map (\<lambda>p. [v, channel A 1 ! p, channel A 2 ! p]) [0..<npixels A])\<rparr>"

text \<open>\<^verbatim>\<open>A.squeeze()\<close> drops every axis of length one.\<close>

definition squeeze :: "ndarray \<Rightarrow> ndarray" where
  "squeeze A = A\<lparr>shape := filter (\<lambda>n. n \<noteq> 1) (shape A)\<rparr>"

text \<open>Python's \<^verbatim>\<open>len\<close> of an array: the length of its first axis.\<close>

definition py_len :: "ndarray \<Rightarrow> error + nat" where
  "py_len A = (case shape A of [] \<Rightarrow> Inl TypeError | n # _ \<Rightarrow> Inr n)"

definition lab_uniform :: "conv \<Rightarrow> conv \<Rightarrow> pixel list \<Rightarrow> error + ndarray" where
  "lab_uniform rgb2lab lab2rgb lyst =
     (let clyst = np_array3 lyst
      in case color_convert rgb2lab clyst of
           Inl e \<Rightarrow> Inl e
         | Inr clyst_lab \<Rightarrow>
             (case color_convert lab2rgb
                     (set_channel0 clyst_lab (np_mean (channel clyst_lab 0))) of
                Inl e \<Rightarrow> Inl e
              | Inr out \<Rightarrow> Inr (squeeze out)))"


section \<open>Images of the data model\<close>

text \<open>
  The specification's image: a well-formed array of shape (height, width, 3), float
  with values in [0,1] or integer with values in [0,255].
\<close>

definition is_float :: "np_dtype \<Rightarrow> bool" where
  "is_float d = (d = Float64 \<or> d = Float32)"

definition valid_image :: "ndarray \<Rightarrow> bool" where
  "valid_image I =
     (wf_ndarray I \<and> length (shape I) = 3 \<and> last (shape I) = 3 \<and>
      list_all (\<lambda>x. 0 \<le> x \<and> x \<le> (if is_float (dtype I) then 1 else 255)) (elems I))"

subsection \<open>Example inputs\<close>

text \<open>
  The 2 x 2 integer image of the specification's end-to-end example (red, green, blue
  and white pixels), a float64 image of one pixel with the value 1.5, a blank integer
  image of 50 x 100 pixels, one-pixel images of two and of four channels, float64
  images of one chartreuse pixel and of one red pixel, an array of shape (0, 5, 3) with
  no pixel, and a world with an empty canvas.
\<close>

definition example_image :: ndarray where
  "example_image =
     \<lparr>shape = [2, 2, 3], dtype = UInt8,
      elems = [255, 0, 0, 0, 255, 0, 0, 0, 255, 255, 255, 255]\<rparr>"

definition overexposed_image :: ndarray where
  "overexposed_image = \<lparr>shape = [1, 1, 3], dtype = Float64, elems = [1.5, 0, 0]\<rparr>"

definition blank_image :: ndarray where
  "blank_image = \<lparr>shape = [50, 100, 3], dtype = UInt8, elems = replicate 15000 0\<rparr>"

definition two_channel_image :: ndarray where
  "two_channel_image = \<lparr>shape = [1, 1, 2], dtype = Float64, elems = [0.5, 0.5]\<rparr>"

definition four_channel_image :: ndarray where
  "four_channel_image = \<lparr>shape = [1, 1, 4], dtype = UInt8, elems = [255, 0, 0, 255]\<rparr>"

definition empty_image :: ndarray where
  "empty_image = \<lparr>shape = [0, 5, 3], dtype = Float64, elems = []\<rparr>"

definition chartreuse_image :: ndarray where
  "chartreuse_image = \<lparr>shape = [1, 1, 3], dtype = Float64, elems = [0.5, 1, 0]\<rparr>"

definition red_image :: ndarray where
  "red_image = \<lparr>shape = [1, 1, 3], dtype = Float64, elems = [1, 0, 0]\<rparr>"



definition fresh_world :: world where
  "fresh_world = \<lparr>rng_state = (\<lambda>i. 7 * i + 2), canvas = []\<rparr>"

section \<open>Properties of the sampling primitive\<close>

lemma shuffle_from_mset:
  "i < length xs \<Longrightarrow> mset (fst (shuffle_from i xs g)) = mset xs"
proof (induction i arbitrary: xs g)
  case 0
  show ?case by simp
next
  case (Suc i)
  obtain j g' where d: "rk_interval (Suc i) g = (j, g')"
    by (cases "rk_interval (Suc i) g")
  have j: "j \<le> Suc i"
    using d by (auto simp: rk_interval_def simp flip: less_Suc_eq_le)
  let ?ys = "xs[Suc i := xs ! j, j := xs ! Suc i]"
  have sw: "mset ?ys = mset xs"
    using Suc.prems j by (intro mset_swap) simp_all
  have "mset (fst (shuffle_from i ?ys g')) = mset ?ys"
    using Suc.prems by (intro Suc.IH) simp
  with sw d show ?case by simp
qed

lemma permutation_mset: "mset (fst (permutation n g)) = mset [0..<n]"
proof (cases n)
  case 0
  then show ?thesis by (simp add: permutation_def)
next
  case (Suc m)
  then show ?thesis
    unfolding permutation_def by (intro shuffle_from_mset) simp
qed

lemma permutation_props:
  "distinct (fst (permutation n g))"
  "set (fst (permutation n g)) = {0..<n}"
  "length (fst (permutation n g)) = n"
proof -
  have m: "mset (fst (permutation n g)) = mset [0..<n]"
    by (rule permutation_mset)
  show "distinct (fst (permutation n g))"
    using m by (metis distinct_upt mset_eq_imp_distinct_iff)
  show "set (fst (permutation n g)) = {0..<n}"
    using m by (metis mset_eq_setD set_upt)
  show "length (fst (permutation n g)) = n"
    using m by (metis length_upt mset_eq_length minus_nat.diff_0)
qed

lemma random_choice_ok:
  assumes "k \<le> n"
  shows "random_choice n k g =
           Inr (take k (fst (permutation n g)), snd (permutation n g))"
  using assms by (auto simp: random_choice_def split: prod.splits)

lemma random_choice_sample:
  assumes "random_choice n k g = Inr (inds, g')"
  shows "length inds = k \<and> distinct inds \<and> set inds \<subseteq> {0..<n}"
proof -
  have kn: "k \<le> n"
    using assms by (auto simp: random_choice_def split: if_splits)
  have inds: "inds = take k (fst (permutation n g))"
    using assms random_choice_ok [OF kn, of g] by simp
  show ?thesis
    using kn permutation_props [of n g] set_take_subset [of k "fst (permutation n g)"]
    by (auto simp: inds)
qed

lemma random_choice_too_many:
  "n < k \<Longrightarrow> random_choice n k g = Inl ValueError"
  by (simp add: random_choice_def)

section \<open>Arrays and conversions\<close>

lemma length_channel: "length (channel I i) = npixels I"
  by (simp add: channel_def)

lemma length_pixel_rows: "length (pixel_rows I) = npixels I"
  by (simp add: pixel_rows_def)

lemma pixel_rows_nth:
  "p < npixels I \<Longrightarrow> pixel_rows I ! p = [channel I 0 ! p, channel I 1 ! p, channel I 2 ! p]"
  by (simp add: pixel_rows_def)

lemma color_convert_Inr:
  assumes "shape I \<noteq> []" "last (shape I) = 3"
  shows "\<exists>A. color_convert f I = Inr A \<and> shape A = shape I \<and> npixels A = npixels I"
  using assms by (simp add: color_convert_def npixels_def)

lemma color_convert_shape:
  assumes "color_convert f I = Inr A"
  shows "shape A = shape I \<and> npixels A = npixels I \<and> shape I \<noteq> [] \<and> last (shape I) = 3"
  using assms by (auto simp: color_convert_def npixels_def split: if_splits)

lemma length_hsv_xyz:
  "length (fst (hsv_xyz A)) = npixels A"
  "length (fst (snd (hsv_xyz A))) = npixels A"
  "length (snd (snd (hsv_xyz A))) = npixels A"
  by (simp_all add: hsv_xyz_def Let_def length_channel)

lemma amax_nonempty: "xs \<noteq> [] \<Longrightarrow> amax xs = Inr (Max (set xs))"
  by (simp add: amax_def)

lemma amin_nonempty: "xs \<noteq> [] \<Longrightarrow> amin xs = Inr (Min (set xs))"
  by (simp add: amin_def)

lemma sampled_rows_nonempty:
  assumes "inds \<noteq> []" "set inds \<subseteq> {0..<npixels I}"
  shows "concat (rows (pixel_rows I) inds) \<noteq> []"
proof -
  obtain i rest where inds: "inds = i # rest"
    using assms(1) by (cases inds) auto
  then have "i < npixels I"
    using assms(2) by simp
  then show ?thesis
    by (simp add: inds rows_def pixel_rows_nth)
qed

lemma rgba_in_range_concat:
  "rgba_in_range c =
     (\<forall>v\<in>set (concat c). case v of None \<Rightarrow> True | Some x \<Rightarrow> 0 \<le> x \<and> x \<le> 1)"
  by (auto simp: rgba_in_range_def list_all_iff)

lemma point_colors_in_range:
  assumes ne: "concat pc \<noteq> []" and nn: "\<forall>x\<in>set (concat pc). 0 \<le> x"
  shows "\<exists>cols. point_colors pc = Inr cols \<and> rgba_in_range cols"
proof -
  define ys where "ys = concat pc"
  define mx mn where "mx = Max (set ys)" and "mn = Min (set ys)"
  have ys: "ys \<noteq> []"
    using ne by (simp add: ys_def)
  have bounds: "mn \<le> x \<and> x \<le> mx" if "x \<in> set ys" for x
    using that by (simp add: mx_def mn_def)
  show ?thesis
  proof (cases "1 < mx")
    case False
    have run: "point_colors pc = Inr (map (map Some) pc)"
      using ne False by (simp add: point_colors_def amax_nonempty mx_def ys_def)
    have unit: "0 \<le> x \<and> x \<le> 1" if "x \<in> set ys" for x
    proof -
      have "0 \<le> x"
        using nn that unfolding ys_def by blast
      moreover have "x \<le> mx"
        using bounds [OF that] by simp
      ultimately show ?thesis
        using False by linarith
    qed
    have "concat (map (map Some) pc) = map Some ys"
      by (simp add: ys_def map_concat)
    then have "rgba_in_range (map (map Some) pc)"
      using unit by (auto simp: rgba_in_range_concat)
    with run show ?thesis
      by blast
  next
    case True
    define zs where "zs = map (\<lambda>x. x - mn) ys"
    define mx1 where "mx1 = Max (set zs)"
    have zs: "zs \<noteq> []"
      using ys by (simp add: zs_def)
    have shifted: "concat (map (map (\<lambda>x. x - mn)) pc) = zs"
      by (simp add: zs_def ys_def map_concat)
    have run: "point_colors pc =
                 Inr (map (map (\<lambda>x. if mx1 = 0 then None else Some (x / mx1)))
                        (map (map (\<lambda>x. x - mn)) pc))"
      using ne True zs unfolding point_colors_def Let_def
      by (simp add: amax_nonempty amin_nonempty shifted
          flip: ys_def mx_def mn_def mx1_def)
    have z: "0 \<le> z \<and> z \<le> mx1" if "z \<in> set zs" for z
    proof -
      have "z \<le> mx1"
        using that by (simp add: mx1_def)
      moreover have "0 \<le> z"
        using that bounds by (auto simp: zs_def)
      ultimately show ?thesis
        by simp
    qed
    have "concat (map (map (\<lambda>x. if mx1 = 0 then None else Some (x / mx1)))
                   (map (map (\<lambda>x. x - mn)) pc)) =
          map (\<lambda>x. if mx1 = 0 then None else Some (x / mx1)) zs"
      by (simp add: zs_def ys_def map_concat)
    moreover have "0 \<le> z / mx1 \<and> z / mx1 \<le> 1" if "z \<in> set zs" "mx1 \<noteq> 0" for z
    proof -
      have "0 \<le> z" "z \<le> mx1"
        using z [OF that(1)] by simp_all
      moreover from this have "0 < mx1"
        using that(2) by linarith
      ultimately show ?thesis
        by (simp add: divide_le_eq_1)
    qed
    ultimately have "rgba_in_range (map (map (\<lambda>x. if mx1 = 0 then None else Some (x / mx1)))
                               (map (map (\<lambda>x. x - mn)) pc))"
      by (auto simp: rgba_in_range_concat)
    with run show ?thesis
      by blast
  qed
qed

lemma valid_image_sampled_values:
  assumes "valid_image I" "set inds \<subseteq> {0..<npixels I}"
  shows "\<forall>x\<in>set (concat (rows (pixel_rows I) inds)). 0 \<le> x"
proof -
  have sh: "shape I \<noteq> []" "last (shape I) = 3"
    using assms(1) by (auto simp: valid_image_def)
  then have "prod_list (shape I) = npixels I * last (shape I)"
    unfolding npixels_def
    by (metis append_butlast_last_id prod_list.append prod_list.Cons prod_list.Nil
        mult.right_neutral)
  then have len: "length (elems I) = npixels I * 3"
    using assms(1) sh by (simp add: valid_image_def wf_ndarray_def)
  have nn: "0 \<le> x" if "x \<in> set (elems I)" for x
    using assms(1) that by (auto simp: valid_image_def list_all_iff)
  have ch: "0 \<le> channel I j ! i" if "i < npixels I" "j < 3" for i j
  proof -
    have "i * 3 + j < length (elems I)"
      using that len by simp
    then have "elems I ! (i * 3 + j) \<in> set (elems I)"
      by (rule nth_mem)
    then show ?thesis
      using that(1) nn by (simp add: channel_def sh)
  qed
  have "0 \<le> x" if "i \<in> set inds" "x \<in> set (pixel_rows I ! i)" for i x
  proof -
    have i: "i < npixels I"
      using assms(2) that(1) by auto
    then have "x = channel I 0 ! i \<or> x = channel I 1 ! i \<or> x = channel I 2 ! i"
      using that(2) by (simp add: pixel_rows_nth)
    then show ?thesis
      using ch [OF i, of 0] ch [OF i, of 1] ch [OF i, of 2] by auto
  qed
  then show ?thesis
    by (auto simp: rows_def)
qed

section \<open>Runs of vis\_hsv\_cube\<close>

lemma vis_hsv_cube_run:
  assumes "color_convert f I = Inr Ihsv"
    and "random_choice (npixels I) K (rng_state w) = Inr (inds, g')"
    and "point_colors (rows (pixel_rows I) inds) = Inr pc"
    and "rgba_in_range pc"
  shows "vis_hsv_cube f I K w =
           Inr (w\<lparr>rng_state := g',
                  canvas := canvas w @
                    [Figure, AddSubplot3d,
                     Scatter (rows (fst (hsv_xyz Ihsv)) inds)
                       (rows (fst (snd (hsv_xyz Ihsv))) inds)
                       (rows (snd (snd (hsv_xyz Ihsv))) inds) pc,
                     SetXLabel ''H and S'', SetYLabel ''H and S'', SetZLabel ''Value'']\<rparr>)"
proof -
  obtain X Y Z where xyz: "hsv_xyz Ihsv = (X, Y, Z)"
    by (cases "hsv_xyz Ihsv") auto
  have "length X = npixels I"
    using length_hsv_xyz(1) [of Ihsv] color_convert_shape [OF assms(1)] xyz by simp
  then show ?thesis
    using assms xyz by (simp add: vis_hsv_cube_def Let_def)
qed

lemma vis_hsv_cube_too_many:
  assumes "shape I \<noteq> []" "last (shape I) = 3" "npixels I < K"
  shows "vis_hsv_cube f I K w = Inl (ValueError, w)"
proof -
  obtain Ihsv where c: "color_convert f I = Inr Ihsv" "npixels Ihsv = npixels I"
    using color_convert_Inr [OF assms(1,2), of f] by blast
  obtain X Y Z where xyz: "hsv_xyz Ihsv = (X, Y, Z)"
    by (cases "hsv_xyz Ihsv") auto
  have "length X = npixels I"
    using length_hsv_xyz(1) [of Ihsv] c xyz by simp
  then show ?thesis
    using c xyz assms(3) by (simp add: vis_hsv_cube_def Let_def random_choice_too_many)
qed

lemma example_image_facts:
  "shape example_image \<noteq> []" "last (shape example_image) = 3" "npixels example_image = 4"
  "length (shape example_image) = 3" "wf_ndarray example_image" "valid_image example_image"
  by (simp_all add: example_image_def npixels_def wf_ndarray_def valid_image_def is_float_def)

section \<open>Runs of vis\_rgb\_cube and the shape assertions\<close>

lemma column_pixel_rows:
  assumes "set inds \<subseteq> {0..<npixels I}"
  shows "column (pixel_rows I) 0 inds = rows (channel I 0) inds"
    and "column (pixel_rows I) 1 inds = rows (channel I 1) inds"
    and "column (pixel_rows I) 2 inds = rows (channel I 2) inds"
  using assms by (auto simp: column_def rows_def pixel_rows_nth subset_iff)

lemma valid_image_elems:
  assumes "valid_image I" "0 < npixels I"
  shows "elems I \<noteq> []"
proof -
  have "shape I \<noteq> []"
    using assms(1) by (auto simp: valid_image_def)
  then have "prod_list (shape I) = npixels I * last (shape I)"
    unfolding npixels_def
    by (metis append_butlast_last_id prod_list.append prod_list.Cons prod_list.Nil mult.right_neutral)
  then have "length (elems I) = npixels I * 3"
    using assms(1) by (simp add: valid_image_def wf_ndarray_def)
  then show ?thesis
    using assms(2) by auto
qed

lemma valid_image_in_range:
  assumes "valid_image I" "elems I \<noteq> []"
  shows "(if dtype I = Float64 then in_range I 1 else in_range I 255) = Inr True"
proof -
  have all: "\<forall>x\<in>set (elems I). 0 \<le> x \<and> x \<le> (if is_float (dtype I) then 1 else 255)"
    using assms(1) by (simp add: valid_image_def list_all_iff)
  have lo: "0 \<le> Min (set (elems I))"
    using all assms(2) by simp
  have hi: "Max (set (elems I)) \<le> (if is_float (dtype I) then 1 else 255)"
    using all assms(2) by simp
  show ?thesis
    using lo hi assms(2)
    by (auto simp: in_range_def amin_nonempty amax_nonempty is_float_def split: if_splits)
qed

lemma vis_rgb_cube_run:
  assumes "valid_image I"
    and "random_choice (npixels I) 5000 (rng_state w) = Inr (inds, g')"
  shows "vis_rgb_cube I numPoints w =
           Inr (w\<lparr>rng_state := g',
                  canvas := canvas w @
                    [Figure, AddSubplot3d,
                     Scatter (column (pixel_rows I) 0 inds) (column (pixel_rows I) 1 inds)
                       (column (pixel_rows I) 2 inds)
                       (map (map (\<lambda>x. Some ((if Max (set (elems I)) \<le> 1 then (\<lambda>x. x)
                                               else (\<lambda>x. x / 255)) x)))
                          (rows (pixel_rows I) inds)),
                     SetXLabel ''Red'', SetYLabel ''Green'', SetZLabel ''Blue'',
                     TightLayout]\<rparr>)"
proof -
  have "0 < npixels I"
    using assms(2) by (auto simp: random_choice_def split: if_splits)
  then have ne: "elems I \<noteq> []"
    using assms(1) by (rule valid_image_elems [rotated])
  have sh: "length (shape I) = 3 \<and> last (shape I) = 3"
    using assms(1) by (simp add: valid_image_def)
  show ?thesis
    unfolding vis_rgb_cube_def
    using sh valid_image_in_range [OF assms(1) ne] assms(2)
    by (simp add: amax_nonempty [OF ne] length_pixel_rows Let_def)
qed

lemma vis_rgb_cube_returned:
  assumes "vis_rgb_cube I numPoints w = Inr w'"
  shows "\<exists>inds g' cols. random_choice (npixels I) 5000 (rng_state w) = Inr (inds, g') \<and>
           w' = w\<lparr>rng_state := g',
                  canvas := canvas w @
                    [Figure, AddSubplot3d,
                     Scatter (column (pixel_rows I) 0 inds) (column (pixel_rows I) 1 inds)
                       (column (pixel_rows I) 2 inds) cols,
                     SetXLabel ''Red'', SetYLabel ''Green'', SetZLabel ''Blue'',
                     TightLayout]\<rparr>"
  using assms unfolding vis_rgb_cube_def
  by (auto simp: length_pixel_rows Let_def split: if_splits sum.splits prod.splits)

lemma vis_rgb_cube_bad_shape:
  assumes "\<not> (length (shape I) = 3 \<and> last (shape I) = 3)"
  shows "vis_rgb_cube I numPoints w = Inl (AssertionError, w)"
  using assms by (simp add: vis_rgb_cube_def)

lemma vis_hists_bad_shape:
  assumes "\<not> (length (shape I) = 3 \<and> last (shape I) = 3)"
  shows "vis_hists I w = Inl (AssertionError, w)"
  using assms by (simp add: vis_hists_def)

lemma vis_rgb_cube_float_above_one:
  assumes "length (shape I) = 3" "last (shape I) = 3" "dtype I = Float64"
    and "x \<in> set (elems I)" "1 < x"
  shows "vis_rgb_cube I numPoints w = Inl (AssertionError, w)"
proof -
  have ne: "elems I \<noteq> []"
    using assms(4) by auto
  have "x \<le> Max (set (elems I))"
    using assms(4) by simp
  then have "\<not> Max (set (elems I)) \<le> 1"
    using assms(5) by linarith
  then have "in_range I 1 = Inr False"
    by (simp add: in_range_def amin_nonempty [OF ne] amax_nonempty [OF ne])
  then show ?thesis
    using assms(1-3) by (simp add: vis_rgb_cube_def)
qed

section \<open>The sampler\<close>

text \<open>
  Claim C6. Whenever the requested count \<open>K\<close> exceeds the pixel count \<open>N\<close>, the random
  choice without replacement raises ValueError, and vis\_hsv\_cube, which draws its sample
  at line 79 before it opens a figure, lets that error through: it ends with ValueError
  in the world it started in, with nothing drawn and the random state untouched.
\<close>

theorem sampler_oversized_request_fails:
  assumes "N < K"
  shows "random_choice N K g = Inl ValueError \<and>
         (shape I \<noteq> [] \<and> last (shape I) = 3 \<and> npixels I = N \<longrightarrow>
            vis_hsv_cube rgb2hsv I K w = Inl (ValueError, w))"
  using assms by (auto simp: random_choice_too_many vis_hsv_cube_too_many)

theorem sampler_oversized_request_fails_witness:
  "(4::nat) < 5 \<and> random_choice 4 5 (rng_state fresh_world) = Inl ValueError \<and>
   vis_hsv_cube (\<lambda>d p. p) example_image 5 fresh_world = Inl (ValueError, fresh_world)"
  using sampler_oversized_request_fails
    [of 4 5 "rng_state fresh_world" example_image "\<lambda>d p. p" fresh_world]
  by (simp add: example_image_facts)

text \<open>
  Claim C7. Whenever \<open>K \<le> N\<close>, the random choice returns: its sample has exactly \<open>K\<close>
  entries, no entry twice, each in \<open>[0, N)\<close>. For a positive \<open>K\<close> this is the sample
  vis\_hsv\_cube plots on a valid image (three channels, values in range) of \<open>N\<close> pixels.
\<close>

theorem sampler_exactly_K_unique:
  assumes "K \<le> N"
  shows "\<exists>inds g'. random_choice N K g = Inr (inds, g') \<and>
           length inds = K \<and> distinct inds \<and> set inds \<subseteq> {0..<N} \<and>
           (valid_image I \<and> npixels I = N \<and> rng_state w = g \<and> 0 < K \<longrightarrow>
              (\<exists>Ihsv pc. color_convert rgb2hsv I = Inr Ihsv \<and>
                 vis_hsv_cube rgb2hsv I K w =
                   Inr (w\<lparr>rng_state := g',
                          canvas := canvas w @
                            [Figure, AddSubplot3d,
                             Scatter (rows (fst (hsv_xyz Ihsv)) inds)
                               (rows (fst (snd (hsv_xyz Ihsv))) inds)
                               (rows (snd (snd (hsv_xyz Ihsv))) inds) pc,
                             SetXLabel ''H and S'', SetYLabel ''H and S'',
                             SetZLabel ''Value'']\<rparr>)))"
proof -
  let ?inds = "take K (fst (permutation N g))" and ?g = "snd (permutation N g)"
  have rc: "random_choice N K g = Inr (?inds, ?g)"
    by (rule random_choice_ok [OF assms])
  have props: "length ?inds = K \<and> distinct ?inds \<and> set ?inds \<subseteq> {0..<N}"
    by (rule random_choice_sample [OF rc])
  have "\<exists>Ihsv pc. color_convert rgb2hsv I = Inr Ihsv \<and>
          vis_hsv_cube rgb2hsv I K w =
            Inr (w\<lparr>rng_state := ?g,
                   canvas := canvas w @
                     [Figure, AddSubplot3d,
                      Scatter (rows (fst (hsv_xyz Ihsv)) ?inds)
                        (rows (fst (snd (hsv_xyz Ihsv))) ?inds)
                        (rows (snd (snd (hsv_xyz Ihsv))) ?inds) pc,
                      SetXLabel ''H and S'', SetYLabel ''H and S'', SetZLabel ''Value'']\<rparr>)"
    if h: "valid_image I" "npixels I = N" "rng_state w = g" "0 < K"
  proof -
    have sh: "shape I \<noteq> []" "last (shape I) = 3"
      using h(1) by (auto simp: valid_image_def)
    obtain Ihsv where c: "color_convert rgb2hsv I = Inr Ihsv"
      using color_convert_Inr [OF sh, of rgb2hsv] by blast
    have ne: "?inds \<noteq> []"
      using props h(4) by auto
    have sub: "set ?inds \<subseteq> {0..<npixels I}"
      using props h(2) by simp
    have "concat (rows (pixel_rows I) ?inds) \<noteq> []"
      by (rule sampled_rows_nonempty [OF ne sub])
    then obtain pc where pc: "point_colors (rows (pixel_rows I) ?inds) = Inr pc"
      and ok: "rgba_in_range pc"
      using point_colors_in_range valid_image_sampled_values [OF h(1) sub] by blast
    have "random_choice (npixels I) K (rng_state w) = Inr (?inds, ?g)"
      using rc h(2,3) by simp
    from vis_hsv_cube_run [OF c this pc ok] c show ?thesis
      by blast
  qed
  with rc props show ?thesis
    by blast
qed

theorem sampler_exactly_K_unique_witness:
  "(3::nat) \<le> 4 \<and>
   (\<exists>inds g'. random_choice 4 3 (rng_state fresh_world) = Inr (inds, g') \<and>
      length inds = 3 \<and> distinct inds \<and> set inds \<subseteq> {0..<4} \<and>
      (\<exists>Ihsv pc. color_convert (\<lambda>d p. p) example_image = Inr Ihsv \<and>
         vis_hsv_cube (\<lambda>d p. p) example_image 3 fresh_world =
           Inr (fresh_world\<lparr>rng_state := g',
                  canvas := canvas fresh_world @
                    [Figure, AddSubplot3d,
                     Scatter (rows (fst (hsv_xyz Ihsv)) inds)
                       (rows (fst (snd (hsv_xyz Ihsv))) inds)
                       (rows (snd (snd (hsv_xyz Ihsv))) inds) pc,
                     SetXLabel ''H and S'', SetYLabel ''H and S'',
                     SetZLabel ''Value'']\<rparr>)))"
  using sampler_exactly_K_unique
    [of 3 4 "rng_state fresh_world" example_image fresh_world "\<lambda>d p. p"]
  by (simp add: example_image_facts)

section \<open>Sampling in vis\_rgb\_cube\<close>

lemma blank_image_facts:
  "valid_image blank_image" "npixels blank_image = 5000"
  by (simp_all add: blank_image_def valid_image_def wf_ndarray_def npixels_def
      list_all_iff is_float_def)

text \<open>
  Claim C1, as stated, fails. The 2 x 2 image of the specification's end-to-end example
  is valid and has four pixels. Asked for the default 5000 points, more than it has,
  the source does not fall back on min(5000, 4) = 4 indices: it opens a figure, then
  asks the random choice for 5000 points out of four, which raises ValueError.
\<close>

theorem vis_rgb_cube_small_image_raises:
  "valid_image example_image \<and> npixels example_image = 4 \<and>
   min 5000 (npixels example_image) = 4 \<and>
   vis_rgb_cube example_image 5000 fresh_world =
     Inl (ValueError, fresh_world\<lparr>canvas := [Figure, AddSubplot3d]\<rparr>)"
proof -
  have v: "valid_image example_image"
    by (simp add: example_image_def valid_image_def wf_ndarray_def is_float_def)
  have r: "in_range example_image 255 = Inr True"
    by (simp add: in_range_def amin_def amax_def example_image_def)
  have m: "amax (elems example_image) = Inr 255"
    by (simp add: amax_def example_image_def)
  have d: "dtype example_image = UInt8"
    by (simp add: example_image_def)
  have c: "canvas fresh_world = []"
    by (simp add: fresh_world_def)
  have "vis_rgb_cube example_image 5000 fresh_world =
          Inl (ValueError, fresh_world\<lparr>canvas := [Figure, AddSubplot3d]\<rparr>)"
    unfolding vis_rgb_cube_def
    by (simp add: example_image_facts d r m c length_pixel_rows random_choice_too_many Let_def)
  with v show ?thesis
    by (simp add: example_image_facts)
qed

text \<open>
  Claim C1, amended. For every valid 3-channel image with values in range that has at
  least 5000 pixels, vis\_rgb\_cube called with the default count 5000 does not raise: it
  samples exactly min(5000, pixel count) = 5000 distinct pixel indices, each below the
  pixel count, and plots the raw red, green and blue values of those pixels under the
  axis labels Red, Green and Blue.
\<close>

theorem vis_rgb_cube_default_count:
  assumes "valid_image I" "5000 \<le> npixels I"
  shows "\<exists>inds g' cols.
           length inds = min 5000 (npixels I) \<and> distinct inds \<and>
           set inds \<subseteq> {0..<npixels I} \<and>
           vis_rgb_cube I 5000 w =
             Inr (w\<lparr>rng_state := g',
                    canvas := canvas w @
                      [Figure, AddSubplot3d,
                       Scatter (rows (channel I 0) inds) (rows (channel I 1) inds)
                         (rows (channel I 2) inds) cols,
                       SetXLabel ''Red'', SetYLabel ''Green'', SetZLabel ''Blue'',
                       TightLayout]\<rparr>)"
proof -
  let ?inds = "take 5000 (fst (permutation (npixels I) (rng_state w)))"
  let ?g = "snd (permutation (npixels I) (rng_state w))"
  have rc: "random_choice (npixels I) 5000 (rng_state w) = Inr (?inds, ?g)"
    by (rule random_choice_ok [OF assms(2)])
  have props: "length ?inds = 5000 \<and> distinct ?inds \<and> set ?inds \<subseteq> {0..<npixels I}"
    by (rule random_choice_sample [OF rc])
  then have sub: "set ?inds \<subseteq> {0..<npixels I}"
    by blast
  have len: "length ?inds = min 5000 (npixels I)"
    using props assms(2) by simp
  show ?thesis
    using vis_rgb_cube_run [OF assms(1) rc, of 5000] props len
    unfolding column_pixel_rows [OF sub] by blast
qed

theorem vis_rgb_cube_default_count_witness:
  "valid_image blank_image \<and> 5000 \<le> npixels blank_image \<and>
   (\<exists>inds g' cols.
      length inds = 5000 \<and> distinct inds \<and> set inds \<subseteq> {0..<5000} \<and>
      vis_rgb_cube blank_image 5000 fresh_world =
        Inr (fresh_world\<lparr>rng_state := g',
               canvas := canvas fresh_world @
                 [Figure, AddSubplot3d,
                  Scatter (rows (channel blank_image 0) inds) (rows (channel blank_image 1) inds)
                    (rows (channel blank_image 2) inds) cols,
                  SetXLabel ''Red'', SetYLabel ''Green'', SetZLabel ''Blue'',
                  TightLayout]\<rparr>))"
  using vis_rgb_cube_default_count [of blank_image fresh_world]
  by (simp add: blank_image_facts)

text \<open>
  Claim C2. The outcome of vis\_rgb\_cube does not depend on its parameter numPoints: for
  every image and world (hence every random state) and every two counts, the two runs
  end alike, error or not; and a run that returns has drawn, from that random state,
  one sample of exactly 5000 distinct pixel indices, the same for both counts.
\<close>

theorem vis_rgb_cube_ignores_numPoints:
  "vis_rgb_cube I k1 w = vis_rgb_cube I k2 w \<and>
   (vis_rgb_cube I k1 w = Inr w' \<longrightarrow>
      (\<exists>inds g' cols.
         random_choice (npixels I) 5000 (rng_state w) = Inr (inds, g') \<and>
         length inds = 5000 \<and> distinct inds \<and> set inds \<subseteq> {0..<npixels I} \<and>
         vis_rgb_cube I k2 w =
           Inr (w\<lparr>rng_state := g',
                  canvas := canvas w @
                    [Figure, AddSubplot3d,
                     Scatter (rows (channel I 0) inds) (rows (channel I 1) inds)
                       (rows (channel I 2) inds) cols,
                     SetXLabel ''Red'', SetYLabel ''Green'', SetZLabel ''Blue'',
                     TightLayout]\<rparr>)))"
proof -
  have eq: "vis_rgb_cube I k1 w = vis_rgb_cube I k2 w"
    by (simp add: vis_rgb_cube_def)
  have "\<exists>inds g' cols.
         random_choice (npixels I) 5000 (rng_state w) = Inr (inds, g') \<and>
         length inds = 5000 \<and> distinct inds \<and> set inds \<subseteq> {0..<npixels I} \<and>
         vis_rgb_cube I k2 w =
           Inr (w\<lparr>rng_state := g',
                  canvas := canvas w @
                    [Figure, AddSubplot3d,
                     Scatter (rows (channel I 0) inds) (rows (channel I 1) inds)
                       (rows (channel I 2) inds) cols,
                     SetXLabel ''Red'', SetYLabel ''Green'', SetZLabel ''Blue'',
                     TightLayout]\<rparr>)"
    if r: "vis_rgb_cube I k1 w = Inr w'"
  proof -
    obtain inds g' cols where
      rc: "random_choice (npixels I) 5000 (rng_state w) = Inr (inds, g')" and
      w': "w' = w\<lparr>rng_state := g',
                  canvas := canvas w @
                    [Figure, AddSubplot3d,
                     Scatter (column (pixel_rows I) 0 inds) (column (pixel_rows I) 1 inds)
                       (column (pixel_rows I) 2 inds) cols,
                     SetXLabel ''Red'', SetYLabel ''Green'', SetZLabel ''Blue'',
                     TightLayout]\<rparr>"
      using vis_rgb_cube_returned [OF r] by blast
    have props: "length inds = 5000 \<and> distinct inds \<and> set inds \<subseteq> {0..<npixels I}"
      by (rule random_choice_sample [OF rc])
    then have sub: "set inds \<subseteq> {0..<npixels I}"
      by blast
    have "vis_rgb_cube I k2 w = Inr w'"
      using r eq by simp
    then show ?thesis
      using rc props w' unfolding column_pixel_rows [OF sub] by blast
  qed
  with eq show ?thesis
    by blast
qed

theorem vis_rgb_cube_ignores_numPoints_witness:
  "vis_rgb_cube blank_image 10 fresh_world = vis_rgb_cube blank_image 20000 fresh_world \<and>
   (\<exists>w' inds g' cols.
      vis_rgb_cube blank_image 10 fresh_world = Inr w' \<and>
      random_choice (npixels blank_image) 5000 (rng_state fresh_world) = Inr (inds, g') \<and>
      length inds = 5000 \<and> distinct inds \<and> set inds \<subseteq> {0..<npixels blank_image} \<and>
      vis_rgb_cube blank_image 20000 fresh_world =
        Inr (fresh_world\<lparr>rng_state := g',
               canvas := canvas fresh_world @
                 [Figure, AddSubplot3d,
                  Scatter (rows (channel blank_image 0) inds) (rows (channel blank_image 1) inds)
                    (rows (channel blank_image 2) inds) cols,
                  SetXLabel ''Red'', SetYLabel ''Green'', SetZLabel ''Blue'',
                  TightLayout]\<rparr>))"
proof -
  have "random_choice (npixels blank_image) 5000 (rng_state fresh_world) =
          Inr (take 5000 (fst (permutation (npixels blank_image) (rng_state fresh_world))),
               snd (permutation (npixels blank_image) (rng_state fresh_world)))"
    by (rule random_choice_ok) (simp add: blank_image_facts)
  from vis_rgb_cube_run [OF blank_image_facts(1) this, of 10]
  obtain w' where r: "vis_rgb_cube blank_image 10 fresh_world = Inr w'"
    by blast
  show ?thesis
    using vis_rgb_cube_ignores_numPoints [of blank_image 10 fresh_world 20000 w'] r
    by blast
qed

section \<open>Validation\<close>

text \<open>
  Claim C3, amended. vis\_rgb\_cube and vis\_hists both raise AssertionError, in an
  untouched world, for every image (height, width, c) of c = 2 or c = 4 channels; and
  vis\_rgb\_cube raises AssertionError for every float64 image of three channels that
  holds the value 1.5. Nothing is said of vis\_hists on a 3-channel image out of range.
\<close>

theorem validation_errors:
  "(shape I = [h, wd, c] \<and> (c = 2 \<or> c = 4) \<longrightarrow>
      vis_rgb_cube I k w = Inl (AssertionError, w) \<and>
      vis_hists I w = Inl (AssertionError, w)) \<and>
   (shape I = [h, wd, 3] \<and> dtype I = Float64 \<and> 1.5 \<in> set (elems I) \<longrightarrow>
      vis_rgb_cube I k w = Inl (AssertionError, w))"
proof -
  have "vis_rgb_cube I k w = Inl (AssertionError, w)"
    if "shape I = [h, wd, 3]" "dtype I = Float64" "1.5 \<in> set (elems I)"
    using that by (intro vis_rgb_cube_float_above_one [where x = "1.5"]) simp_all
  then show ?thesis
    by (auto simp: vis_rgb_cube_bad_shape vis_hists_bad_shape)
qed

theorem validation_errors_witness:
  "vis_rgb_cube two_channel_image 5000 fresh_world = Inl (AssertionError, fresh_world) \<and>
   vis_hists two_channel_image fresh_world = Inl (AssertionError, fresh_world) \<and>
   vis_rgb_cube four_channel_image 5000 fresh_world = Inl (AssertionError, fresh_world) \<and>
   vis_hists four_channel_image fresh_world = Inl (AssertionError, fresh_world) \<and>
   dtype overexposed_image = Float64 \<and> 1.5 \<in> set (elems overexposed_image) \<and>
   vis_rgb_cube overexposed_image 5000 fresh_world = Inl (AssertionError, fresh_world)"
  using validation_errors [of two_channel_image 1 1 2 5000 fresh_world]
    validation_errors [of four_channel_image 1 1 4 5000 fresh_world]
    validation_errors [of overexposed_image 1 1 2 5000 fresh_world]
  by (simp add: two_channel_image_def four_channel_image_def overexposed_image_def)

text \<open>
  Claim C3, as stated, fails on vis\_hists, whose only assertion is on the shape: on the
  float64 image of one pixel (1.5, 0, 0) it raises nothing.
\<close>

theorem vis_hists_no_range_check:
  "shape overexposed_image = [1, 1, 3] \<and> dtype overexposed_image = Float64 \<and>
   1.5 \<in> set (elems overexposed_image) \<and>
   \<not> isl (vis_hists overexposed_image fresh_world)"
  by (simp add: overexposed_image_def vis_hists_def npixels_def Let_def)

section \<open>The bin edges of vis\_hists\<close>

lemma length_linspace: "length (linspace a b n) = n"
  by (simp add: linspace_def)

lemma linspace_nth:
  "i < n \<Longrightarrow> linspace a b n ! i = a + real i * ((b - a) / real (n - 1))"
  by (simp add: linspace_def)

lemma linspace_hd:
  assumes "0 < n"
  shows "hd (linspace a b n) = a"
proof -
  have "linspace a b n \<noteq> []"
    using assms length_linspace [of a b n] by auto
  then show ?thesis
    using linspace_nth [of 0 n a b] assms by (simp add: hd_conv_nth)
qed

lemma linspace_last:
  assumes "1 < n"
  shows "last (linspace a b n) = b"
proof -
  have "linspace a b n \<noteq> []"
    using assms length_linspace [of a b n] by auto
  then show ?thesis
    using linspace_nth [of "n - 1" n a b] assms
    by (simp add: last_conv_nth length_linspace)
qed

lemma linspace_increasing:
  assumes "a < b"
  shows "sorted_wrt (<) (linspace a b n)"
proof -
  have "linspace a b n ! i < linspace a b n ! j" if "i < j" "j < n" for i j
  proof -
    have d: "0 < (b - a) / real (n - 1)"
      using assms that by simp
    have "real i * ((b - a) / real (n - 1)) < real j * ((b - a) / real (n - 1))"
      using that(1) d by (intro mult_strict_right_mono) simp_all
    then show ?thesis
      using that by (simp add: linspace_nth)
  qed
  then show ?thesis
    by (simp add: sorted_wrt_iff_nth_less length_linspace)
qed

lemma outer_edges_props:
  assumes "outer_edges a = (lo, hi)"
  shows "lo < hi"
    and "x \<in> set a \<Longrightarrow> lo \<le> x \<and> x \<le> hi"
    and "a \<noteq> [] \<Longrightarrow> Min (set a) < Max (set a) \<Longrightarrow> lo = Min (set a) \<and> hi = Max (set a)"
proof -
  have mm: "Min (set a) \<le> Max (set a)" if "a \<noteq> []"
    using that by simp
  show "lo < hi"
  proof (cases "a = []")
    case True
    then show ?thesis
      using assms by (auto simp: outer_edges_def)
  next
    case False
    then show ?thesis
      using assms mm [OF False]
      by (cases "Min (set a) = Max (set a)") (auto simp: outer_edges_def)
  qed
  show "lo \<le> x \<and> x \<le> hi" if "x \<in> set a"
  proof -
    define mn mx where "mn = Min (set a)" and "mx = Max (set a)"
    have bounds: "mn \<le> x" "x \<le> mx" and ne: "a \<noteq> []"
      using that by (auto simp: mn_def mx_def)
    have "(lo, hi) = (if mn = mx then (mn - 0.5, mx + 0.5) else (mn, mx))"
      using assms ne by (auto simp: outer_edges_def mn_def mx_def split: if_splits)
    then show ?thesis
      using bounds by (auto split: if_splits)
  qed
  show "lo = Min (set a) \<and> hi = Max (set a)" if "a \<noteq> []" "Min (set a) < Max (set a)"
    using assms that by (auto simp: outer_edges_def split: if_splits)
qed

text \<open>
  An array of three channels and no pixel gets its edges computed, but
  \<^verbatim>\<open>imshow\<close> refuses it before any histogram is drawn.
\<close>

lemma vis_hists_no_pixel:
  assumes "length (shape I) = 3" "last (shape I) = 3" "npixels I = 0"
  shows "vis_hists I w = Inl (ValueError, w\<lparr>canvas := canvas w @ [Subplots]\<rparr>)"
  using assms by (simp add: vis_hists_def Let_def)

lemma vis_hists_empty_image:
  "vis_hists empty_image fresh_world = Inl (ValueError, fresh_world\<lparr>canvas := [Subplots]\<rparr>)"
  by (simp add: vis_hists_def empty_image_def fresh_world_def npixels_def Let_def)

text \<open>
  Claim C8. On every 3-channel image (of at least one pixel) vis\_hists computes one
  bin-edge list and hands that same list to the red, the green and the blue histogram.
  The list has 257 strictly increasing values (256 bins) and spans the values of all
  channels together: every value of the image lies between its first and its last
  edge, which are the least and the greatest value of the image as soon as these
  differ.
\<close>

theorem vis_hists_shared_bin_edges:
  assumes "length (shape I) = 3" "last (shape I) = 3" "0 < npixels I"
  shows "\<exists>allbins.
           vis_hists I w =
             Inr (w\<lparr>canvas := canvas w @
                    [Subplots, Imshow I, SetTitle ''Image'',
                     Hist (channel I 0) allbins ''red'',
                     Hist (channel I 1) allbins ''green'',
                     Hist (channel I 2) allbins ''blue'',
                     Legend, TightLayout]\<rparr>) \<and>
           length allbins = 257 \<and> sorted_wrt (<) allbins \<and>
           list_all (\<lambda>x. hd allbins \<le> x \<and> x \<le> last allbins) (elems I) \<and>
           (elems I \<noteq> [] \<and> Min (set (elems I)) < Max (set (elems I)) \<longrightarrow>
              hd allbins = Min (set (elems I)) \<and> last allbins = Max (set (elems I)))"
proof -
  obtain lo hi where oe: "outer_edges (elems I) = (lo, hi)"
    by (cases "outer_edges (elems I)") auto
  let ?bins = "linspace lo hi 257"
  have b: "histogram_bin_edges (elems I) 256 = ?bins"
    by (simp add: histogram_bin_edges_def oe)
  have run: "vis_hists I w =
             Inr (w\<lparr>canvas := canvas w @
                    [Subplots, Imshow I, SetTitle ''Image'',
                     Hist (channel I 0) ?bins ''red'',
                     Hist (channel I 1) ?bins ''green'',
                     Hist (channel I 2) ?bins ''blue'',
                     Legend, TightLayout]\<rparr>)"
    using assms by (simp add: vis_hists_def b Let_def)
  have ends: "hd ?bins = lo" "last ?bins = hi"
    by (simp_all add: linspace_hd linspace_last)
  have len: "length ?bins = 257"
    by (rule length_linspace)
  have inc: "sorted_wrt (<) ?bins"
    by (rule linspace_increasing) (rule outer_edges_props(1) [OF oe])
  have cover: "list_all (\<lambda>x. hd ?bins \<le> x \<and> x \<le> last ?bins) (elems I)"
    unfolding ends list_all_iff using outer_edges_props(2) [OF oe] by blast
  have exact: "elems I \<noteq> [] \<and> Min (set (elems I)) < Max (set (elems I)) \<longrightarrow>
              hd ?bins = Min (set (elems I)) \<and> last ?bins = Max (set (elems I))"
    unfolding ends using outer_edges_props(3) [OF oe] by blast
  from run len inc cover exact show ?thesis
    by blast
qed

theorem vis_hists_shared_bin_edges_witness:
  "length (shape example_image) = 3 \<and> last (shape example_image) = 3 \<and>
   0 < npixels example_image \<and>
   (\<exists>allbins.
      vis_hists example_image fresh_world =
        Inr (fresh_world\<lparr>canvas := canvas fresh_world @
               [Subplots, Imshow example_image, SetTitle ''Image'',
                Hist (channel example_image 0) allbins ''red'',
                Hist (channel example_image 1) allbins ''green'',
                Hist (channel example_image 2) allbins ''blue'',
                Legend, TightLayout]\<rparr>) \<and>
      length allbins = 257 \<and> sorted_wrt (<) allbins \<and>
      hd allbins = 0 \<and> last allbins = 255)"
proof -
  have m: "elems example_image \<noteq> []" "Min (set (elems example_image)) = 0"
    "Max (set (elems example_image)) = 255"
    by (simp_all add: example_image_def)
  show ?thesis
    using vis_hists_shared_bin_edges [of example_image fresh_world]
    by (simp add: example_image_facts m) blast
qed

section \<open>The HSV projection\<close>

lemma length_concat_triples:
  assumes "\<And>x. length (t x) = 3"
  shows "length (concat (map t [0..<n])) = n * 3"
  using assms by (induction n) simp_all

lemma nth_concat_triples:
  assumes "\<And>x. length (t x) = 3" "p < n" "j < 3"
  shows "concat (map t [0..<n]) ! (p * 3 + j) = t p ! j"
  using assms(2)
proof (induction n)
  case 0
  then show ?case by simp
next
  case (Suc n)
  have len: "length (concat (map t [0..<n])) = n * 3"
    by (rule length_concat_triples) (rule assms(1))
  show ?case
  proof (cases "p < n")
    case True
    then have "p * 3 + j < n * 3"
      using assms(3) by simp
    then show ?thesis
      using Suc.IH [OF True] by (simp add: nth_append len)
  next
    case False
    then have "p = n"
      using Suc.prems by simp
    then show ?thesis
      by (simp add: nth_append len)
  qed
qed

lemma channel_color_convert:
  assumes "color_convert f I = Inr A" "p < npixels I" "f (dtype I) (pixel_at I p) = (a, b, c)"
  shows "channel A 0 ! p = a" "channel A 1 ! p = b" "channel A 2 ! p = c"
proof -
  let ?t = "\<lambda>p. case f (dtype I) (pixel_at I p) of (a, b, c) \<Rightarrow> [a, b, c]"
  have sh: "shape A = shape I" "npixels A = npixels I" "last (shape I) = 3"
    using color_convert_shape [OF assms(1)] by simp_all
  have el: "elems A = concat (map ?t [0..<npixels I])"
    using assms(1) by (auto simp: color_convert_def split: if_splits)
  have t3: "length (?t x) = 3" for x
    by (simp split: prod.splits)
  have nth: "elems A ! (p * 3 + j) = ?t p ! j" if "j < 3" for j
    unfolding el using t3 assms(2) that by (rule nth_concat_triples)
  have tp: "?t p = [a, b, c]"
    using assms(3) by simp
  show "channel A 0 ! p = a"
    using nth [of 0] assms(2) by (simp add: channel_def sh tp)
  show "channel A 1 ! p = b"
    using nth [of 1] assms(2) by (simp add: channel_def sh tp)
  show "channel A 2 ! p = c"
    using nth [of 2] assms(2) by (simp add: channel_def sh tp)
qed

lemma vis_hsv_cube_returned:
  assumes "vis_hsv_cube f I K w = Inr w'"
  shows "\<exists>Ihsv inds g' pc.
           color_convert f I = Inr Ihsv \<and>
           random_choice (npixels I) K (rng_state w) = Inr (inds, g') \<and>
           w' = w\<lparr>rng_state := g',
                  canvas := canvas w @
                    [Figure, AddSubplot3d,
                     Scatter (rows (fst (hsv_xyz Ihsv)) inds)
                       (rows (fst (snd (hsv_xyz Ihsv))) inds)
                       (rows (snd (snd (hsv_xyz Ihsv))) inds) pc,
                     SetXLabel ''H and S'', SetYLabel ''H and S'', SetZLabel ''Value'']\<rparr>"
proof -
  obtain Ihsv where c: "color_convert f I = Inr Ihsv"
    using assms by (auto simp: vis_hsv_cube_def split: sum.splits)
  obtain X Y Z where xyz: "hsv_xyz Ihsv = (X, Y, Z)"
    by (cases "hsv_xyz Ihsv") auto
  have len: "length X = npixels I"
    using length_hsv_xyz(1) [of Ihsv] color_convert_shape [OF c] xyz by simp
  show ?thesis
    using assms c xyz len unfolding vis_hsv_cube_def
    by (auto simp: Let_def split: sum.splits prod.splits if_splits)
qed

text \<open>
  Claim C9. For every pixel \<open>p\<close> of an image, with hue \<open>H\<close>, saturation \<open>S\<close> and value \<open>V\<close>
  from the conversion, vis\_hsv\_cube computes the coordinates \<open>x = S cos(2 pi H)\<close>,
  \<open>y = S sin(2 pi H)\<close> and \<open>z = V\<close>; a run that returns has plotted these coordinate lists
  at the \<open>K\<close> sampled pixels.
\<close>

theorem hsv_projection:
  assumes "color_convert rgb2hsv I = Inr Ihsv"
    and "hsv_xyz Ihsv = (X, Y, Z)"
    and "p < npixels I"
    and "rgb2hsv (dtype I) (pixel_at I p) = (H, S, V)"
  shows "X ! p = S * cos (2 * pi * H) \<and> Y ! p = S * sin (2 * pi * H) \<and> Z ! p = V \<and>
         (vis_hsv_cube rgb2hsv I K w = Inr w' \<longrightarrow>
            (\<exists>inds pc. length inds = K \<and> set inds \<subseteq> {0..<npixels I} \<and>
               canvas w' = canvas w @
                 [Figure, AddSubplot3d,
                  Scatter (rows X inds) (rows Y inds) (rows Z inds) pc,
                  SetXLabel ''H and S'', SetYLabel ''H and S'', SetZLabel ''Value'']))"
proof -
  have ch: "channel Ihsv 0 ! p = H" "channel Ihsv 1 ! p = S" "channel Ihsv 2 ! p = V"
    using channel_color_convert [OF assms(1,3,4)] by simp_all
  have n: "p < npixels Ihsv"
    using color_convert_shape [OF assms(1)] assms(3) by simp
  have X: "X = map2 (\<lambda>r p. r * cos p) (channel Ihsv 1) (map (\<lambda>h. 2 * pi * h) (channel Ihsv 0))"
    and Y: "Y = map2 (\<lambda>r p. r * sin p) (channel Ihsv 1) (map (\<lambda>h. 2 * pi * h) (channel Ihsv 0))"
    and Z: "Z = channel Ihsv 2"
    using assms(2) by (simp_all add: hsv_xyz_def Let_def)
  have coords: "X ! p = S * cos (2 * pi * H) \<and> Y ! p = S * sin (2 * pi * H) \<and> Z ! p = V"
    using n ch by (simp add: X Y Z length_channel)
  have "\<exists>inds pc. length inds = K \<and> set inds \<subseteq> {0..<npixels I} \<and>
               canvas w' = canvas w @
                 [Figure, AddSubplot3d,
                  Scatter (rows X inds) (rows Y inds) (rows Z inds) pc,
                  SetXLabel ''H and S'', SetYLabel ''H and S'', SetZLabel ''Value'']"
    if r: "vis_hsv_cube rgb2hsv I K w = Inr w'"
  proof -
    obtain A inds g' pc where
      A: "color_convert rgb2hsv I = Inr A" and
      rc: "random_choice (npixels I) K (rng_state w) = Inr (inds, g')" and
      w': "w' = w\<lparr>rng_state := g',
                  canvas := canvas w @
                    [Figure, AddSubplot3d,
                     Scatter (rows (fst (hsv_xyz A)) inds)
                       (rows (fst (snd (hsv_xyz A))) inds)
                       (rows (snd (snd (hsv_xyz A))) inds) pc,
                     SetXLabel ''H and S'', SetYLabel ''H and S'', SetZLabel ''Value'']\<rparr>"
      using vis_hsv_cube_returned [OF r] by blast
    have "A = Ihsv"
      using A assms(1) by simp
    then have "canvas w' = canvas w @
                 [Figure, AddSubplot3d,
                  Scatter (rows X inds) (rows Y inds) (rows Z inds) pc,
                  SetXLabel ''H and S'', SetYLabel ''H and S'', SetZLabel ''Value'']"
      using w' assms(2) by simp
    then show ?thesis
      using random_choice_sample [OF rc] by blast
  qed
  with coords show ?thesis
    by blast
qed

theorem hsv_projection_witness:
  "color_convert (\<lambda>d p. (1 / 4, 1, 1)) chartreuse_image =
     Inr \<lparr>shape = [1, 1, 3], dtype = Float64, elems = [1 / 4, 1, 1]\<rparr> \<and>
   hsv_xyz \<lparr>shape = [1, 1, 3], dtype = Float64, elems = [1 / 4, 1, 1]\<rparr> = ([0], [1], [1]) \<and>
   (0::nat) < npixels chartreuse_image \<and>
   [0::real] ! 0 = 1 * cos (2 * pi * (1 / 4)) \<and>
   [1::real] ! 0 = 1 * sin (2 * pi * (1 / 4)) \<and>
   [1::real] ! 0 = 1 \<and>
   vis_hsv_cube (\<lambda>d p. (1 / 4, 1, 1)) chartreuse_image 1 fresh_world =
     Inr (fresh_world\<lparr>canvas :=
            [Figure, AddSubplot3d, Scatter [0] [1] [1] [[Some (1 / 2), Some 1, Some 0]],
             SetXLabel ''H and S'', SetYLabel ''H and S'', SetZLabel ''Value'']\<rparr>) \<and>
   (\<exists>inds pc. length inds = 1 \<and> set inds \<subseteq> {0..<npixels chartreuse_image} \<and>
      [Figure, AddSubplot3d, Scatter [0] [1] [1] [[Some (1 / 2), Some 1, Some 0]],
       SetXLabel ''H and S'', SetYLabel ''H and S'', SetZLabel ''Value''] =
      canvas fresh_world @
        [Figure, AddSubplot3d, Scatter (rows [0] inds) (rows [1] inds) (rows [1] inds) pc,
         SetXLabel ''H and S'', SetYLabel ''H and S'', SetZLabel ''Value''])"
proof -
  let ?f = "\<lambda>(d::np_dtype) (p::pixel). (1 / 4 :: real, 1 :: real, 1 :: real)"
  let ?A = "\<lparr>shape = [1, 1, 3], dtype = Float64, elems = [1 / 4, 1, 1]\<rparr>"
  have n: "npixels chartreuse_image = 1"
    by (simp add: chartreuse_image_def npixels_def)
  have c: "color_convert ?f chartreuse_image = Inr ?A"
    by (simp add: color_convert_def chartreuse_image_def npixels_def)
  have x: "hsv_xyz ?A = ([0], [1], [1])"
    by (simp add: hsv_xyz_def channel_def npixels_def Let_def)
  have rc: "random_choice (npixels chartreuse_image) 1 (rng_state fresh_world) =
              Inr ([0], rng_state fresh_world)"
    by (simp add: n random_choice_def permutation_def)
  have rows: "pixel_rows chartreuse_image = [[1 / 2, 1, 0]]"
    by (simp add: pixel_rows_def channel_def chartreuse_image_def npixels_def)
  have pc: "point_colors (rows (pixel_rows chartreuse_image) [0]) =
              Inr [[Some (1 / 2), Some 1, Some 0]]"
    by (simp add: rows rows_def point_colors_def amax_def)
  have ok: "rgba_in_range [[Some (1 / 2), Some 1, Some 0]]"
    by (simp add: rgba_in_range_def)
  have run: "vis_hsv_cube ?f chartreuse_image 1 fresh_world =
     Inr (fresh_world\<lparr>canvas :=
            [Figure, AddSubplot3d, Scatter [0] [1] [1] [[Some (1 / 2), Some 1, Some 0]],
             SetXLabel ''H and S'', SetYLabel ''H and S'', SetZLabel ''Value'']\<rparr>)"
    using vis_hsv_cube_run [OF c rc pc ok] unfolding x by (simp add: rows_def fresh_world_def)
  show ?thesis
    using hsv_projection [OF c x, of 0 "1 / 4" 1 1 1 fresh_world
        "fresh_world\<lparr>canvas :=
            [Figure, AddSubplot3d, Scatter [0] [1] [1] [[Some (1 / 2), Some 1, Some 0]],
             SetXLabel ''H and S'', SetYLabel ''H and S'', SetZLabel ''Value'']\<rparr>"]
      c x run
    by (simp add: n)
qed

section \<open>The Lab projection\<close>

lemma vis_lab_cube_returned:
  assumes "vis_lab_cube f I K w = Inr w'"
  shows "\<exists>Ilab inds g' pc.
           color_convert f I = Inr Ilab \<and>
           random_choice (npixels I) K (rng_state w) = Inr (inds, g') \<and>
           w' = w\<lparr>rng_state := g',
                  canvas := canvas w @
                    [Figure, AddSubplot3d,
                     Scatter (column (pixel_rows Ilab) 1 inds) (column (pixel_rows Ilab) 2 inds)
                       (column (pixel_rows Ilab) 0 inds) pc,
                     SetXLabel ''green->red'', SetYLabel ''blue->yellow'',
                     SetZLabel ''Lightness'']\<rparr>"
proof -
  obtain Ilab where c: "color_convert f I = Inr Ilab"
    using assms by (auto simp: vis_lab_cube_def split: sum.splits)
  have len: "length (pixel_rows Ilab) = npixels I"
    using color_convert_shape [OF c] by (simp add: length_pixel_rows)
  show ?thesis
    using assms c len unfolding vis_lab_cube_def
    by (auto simp: Let_def split: sum.splits prod.splits if_splits)
qed

lemma vis_lab_cube_run:
  assumes "color_convert f I = Inr Ilab"
    and "random_choice (npixels I) K (rng_state w) = Inr (inds, g')"
    and "point_colors (rows (pixel_rows I) inds) = Inr pc"
    and "rgba_in_range pc"
  shows "vis_lab_cube f I K w =
           Inr (w\<lparr>rng_state := g',
                  canvas := canvas w @
                    [Figure, AddSubplot3d,
                     Scatter (column (pixel_rows Ilab) 1 inds) (column (pixel_rows Ilab) 2 inds)
                       (column (pixel_rows Ilab) 0 inds) pc,
                     SetXLabel ''green->red'', SetYLabel ''blue->yellow'',
                     SetZLabel ''Lightness'']\<rparr>)"
proof -
  have "length (pixel_rows Ilab) = npixels I"
    using color_convert_shape [OF assms(1)] by (simp add: length_pixel_rows)
  then show ?thesis
    using assms by (simp add: vis_lab_cube_def Let_def)
qed

lemma column_converted:
  assumes "color_convert f I = Inr A" "set inds \<subseteq> {0..<npixels I}"
  shows "column (pixel_rows A) 0 inds = map (\<lambda>p. fst (f (dtype I) (pixel_at I p))) inds"
    and "column (pixel_rows A) 1 inds = map (\<lambda>p. fst (snd (f (dtype I) (pixel_at I p)))) inds"
    and "column (pixel_rows A) 2 inds = map (\<lambda>p. snd (snd (f (dtype I) (pixel_at I p)))) inds"
proof -
  have n: "npixels A = npixels I"
    using color_convert_shape [OF assms(1)] by simp
  have ch: "channel A 0 ! p = fst (f (dtype I) (pixel_at I p)) \<and>
            channel A 1 ! p = fst (snd (f (dtype I) (pixel_at I p))) \<and>
            channel A 2 ! p = snd (snd (f (dtype I) (pixel_at I p)))" if "p < npixels I" for p
    using channel_color_convert [OF assms(1) that, of "fst (f (dtype I) (pixel_at I p))"
        "fst (snd (f (dtype I) (pixel_at I p)))" "snd (snd (f (dtype I) (pixel_at I p)))"]
    by simp
  have lt: "p < npixels I" if "p \<in> set inds" for p
    using assms(2) that by auto
  show "column (pixel_rows A) 0 inds = map (\<lambda>p. fst (f (dtype I) (pixel_at I p))) inds"
    using lt ch by (simp add: column_def pixel_rows_nth n)
  show "column (pixel_rows A) 1 inds = map (\<lambda>p. fst (snd (f (dtype I) (pixel_at I p)))) inds"
    using lt ch by (simp add: column_def pixel_rows_nth n)
  show "column (pixel_rows A) 2 inds = map (\<lambda>p. snd (snd (f (dtype I) (pixel_at I p)))) inds"
    using lt ch by (simp add: column_def pixel_rows_nth n)
qed

text \<open>
  Claim C10. Every run of vis\_lab\_cube that returns has plotted, for each of its \<open>K\<close>
  sampled pixels, the converted values in the order (a, b, lightness): the a channel on
  the first axis (green to red), the b channel on the second (blue to yellow) and the
  lightness on the third, vertical axis.
\<close>

theorem lab_projection_axes:
  assumes "vis_lab_cube rgb2lab I K w = Inr w'"
  shows "\<exists>inds pc. length inds = K \<and> distinct inds \<and> set inds \<subseteq> {0..<npixels I} \<and>
           canvas w' = canvas w @
             [Figure, AddSubplot3d,
              Scatter (map (\<lambda>p. fst (snd (rgb2lab (dtype I) (pixel_at I p)))) inds)
                (map (\<lambda>p. snd (snd (rgb2lab (dtype I) (pixel_at I p)))) inds)
                (map (\<lambda>p. fst (rgb2lab (dtype I) (pixel_at I p))) inds) pc,
              SetXLabel ''green->red'', SetYLabel ''blue->yellow'',
              SetZLabel ''Lightness'']"
proof -
  obtain Ilab inds g' pc where
    c: "color_convert rgb2lab I = Inr Ilab" and
    rc: "random_choice (npixels I) K (rng_state w) = Inr (inds, g')" and
    w': "w' = w\<lparr>rng_state := g',
                canvas := canvas w @
                  [Figure, AddSubplot3d,
                   Scatter (column (pixel_rows Ilab) 1 inds) (column (pixel_rows Ilab) 2 inds)
                     (column (pixel_rows Ilab) 0 inds) pc,
                   SetXLabel ''green->red'', SetYLabel ''blue->yellow'',
                   SetZLabel ''Lightness'']\<rparr>"
    using vis_lab_cube_returned [OF assms] by blast
  have props: "length inds = K \<and> distinct inds \<and> set inds \<subseteq> {0..<npixels I}"
    by (rule random_choice_sample [OF rc])
  then have sub: "set inds \<subseteq> {0..<npixels I}"
    by blast
  have "canvas w' = canvas w @
             [Figure, AddSubplot3d,
              Scatter (map (\<lambda>p. fst (snd (rgb2lab (dtype I) (pixel_at I p)))) inds)
                (map (\<lambda>p. snd (snd (rgb2lab (dtype I) (pixel_at I p)))) inds)
                (map (\<lambda>p. fst (rgb2lab (dtype I) (pixel_at I p))) inds) pc,
              SetXLabel ''green->red'', SetYLabel ''blue->yellow'',
              SetZLabel ''Lightness'']"
    using w' unfolding column_converted [OF c sub] by simp
  with props show ?thesis
    by blast
qed

theorem lab_projection_axes_witness:
  "vis_lab_cube (\<lambda>d p. (53, 80, 67)) red_image 1 fresh_world =
     Inr (fresh_world\<lparr>canvas :=
            [Figure, AddSubplot3d, Scatter [80] [67] [53] [[Some 1, Some 0, Some 0]],
             SetXLabel ''green->red'', SetYLabel ''blue->yellow'',
             SetZLabel ''Lightness'']\<rparr>) \<and>
   (\<exists>inds pc. length inds = 1 \<and> distinct inds \<and> set inds \<subseteq> {0..<npixels red_image} \<and>
      [Figure, AddSubplot3d, Scatter [80] [67] [53] [[Some 1, Some 0, Some 0]],
       SetXLabel ''green->red'', SetYLabel ''blue->yellow'', SetZLabel ''Lightness''] =
      canvas fresh_world @
        [Figure, AddSubplot3d,
         Scatter (map (\<lambda>p. 80) inds) (map (\<lambda>p. 67) inds) (map (\<lambda>p. 53) inds) pc,
         SetXLabel ''green->red'', SetYLabel ''blue->yellow'', SetZLabel ''Lightness''])"
proof -
  let ?f = "\<lambda>(d::np_dtype) (p::pixel). (53 :: real, 80 :: real, 67 :: real)"
  let ?A = "\<lparr>shape = [1, 1, 3], dtype = Float64, elems = [53, 80, 67]\<rparr>"
  have n: "npixels red_image = 1"
    by (simp add: red_image_def npixels_def)
  have c: "color_convert ?f red_image = Inr ?A"
    by (simp add: color_convert_def red_image_def npixels_def)
  have rc: "random_choice (npixels red_image) 1 (rng_state fresh_world) =
              Inr ([0], rng_state fresh_world)"
    by (simp add: n random_choice_def permutation_def)
  have rows: "pixel_rows red_image = [[1, 0, 0]]"
    by (simp add: pixel_rows_def channel_def red_image_def npixels_def)
  have lab: "pixel_rows ?A = [[53, 80, 67]]"
    by (simp add: pixel_rows_def channel_def npixels_def)
  have pc: "point_colors (rows (pixel_rows red_image) [0]) = Inr [[Some 1, Some 0, Some 0]]"
    by (simp add: rows rows_def point_colors_def amax_def)
  have ok: "rgba_in_range [[Some 1, Some 0, Some 0]]"
    by (simp add: rgba_in_range_def)
  have run: "vis_lab_cube ?f red_image 1 fresh_world =
     Inr (fresh_world\<lparr>canvas :=
            [Figure, AddSubplot3d, Scatter [80] [67] [53] [[Some 1, Some 0, Some 0]],
             SetXLabel ''green->red'', SetYLabel ''blue->yellow'',
             SetZLabel ''Lightness'']\<rparr>)"
    using vis_lab_cube_run [OF c rc pc ok] unfolding lab
    by (simp add: column_def fresh_world_def)
  show ?thesis
    using lab_projection_axes [OF run] run by simp
qed

section \<open>The shape of the result of lab\_uniform\<close>


lemma lab_uniform_shape:
  assumes "lyst \<noteq> []"
  shows "map_sum id shape (lab_uniform rgb2lab lab2rgb lyst) =
           Inr (filter (\<lambda>n. n \<noteq> 1) [1, length lyst, 3])"
  using assms
  by (simp add: lab_uniform_def np_array3_def color_convert_def set_channel0_def squeeze_def
      Let_def)

lemma lab_uniform_length:
  assumes "2 \<le> length lyst"
  shows "(case lab_uniform rgb2lab lab2rgb lyst of Inl e \<Rightarrow> Inl e | Inr A \<Rightarrow> py_len A) =
           Inr (length lyst)"
proof -
  have ne: "lyst \<noteq> []"
    using assms by auto
  obtain A where A: "lab_uniform rgb2lab lab2rgb lyst = Inr A"
    using lab_uniform_shape [OF ne, of rgb2lab lab2rgb]
    by (cases "lab_uniform rgb2lab lab2rgb lyst") auto
  then have "shape A = [length lyst, 3]"
    using lab_uniform_shape [OF ne, of rgb2lab lab2rgb] assms by auto
  then show ?thesis
    by (simp add: A py_len_def)
qed

lemma lab_uniform_empty:
  "lab_uniform rgb2lab lab2rgb [] = Inl ValueError"
  by (simp add: lab_uniform_def np_array3_def color_convert_def)

text \<open>
  Claim C5 asks for a result as long as the list. For a list of a single colour \<open>c\<close>,
  whatever the conversions compute, \<^verbatim>\<open>squeeze()\<close> drops both axes of length one of the
  (1, 1, 3) array: lab\_uniform returns an array of shape (3,), whose \<^verbatim>\<open>len\<close> is 3 and not
  1. (Lists of two or more colours keep their length, and the empty list raises
  ValueError, by the lemmas above.)
\<close>

theorem lab_uniform_single_colour:
  "map_sum id shape (lab_uniform rgb2lab lab2rgb [c]) = Inr [3] \<and>
   (case lab_uniform rgb2lab lab2rgb [c] of Inl e \<Rightarrow> Inl e | Inr A \<Rightarrow> py_len A) = Inr 3"
proof -
  have s: "map_sum id shape (lab_uniform rgb2lab lab2rgb [c]) = Inr [3]"
    using lab_uniform_shape [of "[c]" rgb2lab lab2rgb] by simp
  then obtain A where A: "lab_uniform rgb2lab lab2rgb [c] = Inr A" "shape A = [3]"
    by (cases "lab_uniform rgb2lab lab2rgb [c]") auto
  then show ?thesis
    by (simp add: py_len_def)
qed

section \<open>The lightness of the result of lab\_uniform\<close>









end
